theory Spec2Isabelle
  imports Main "HOL-Library.Sublist"
begin

section \<open>Python strings\<close>

text \<open>
  A Python \<open>str\<close> is modelled as a \<open>string\<close>: one \<open>char\<close> per code point, which
  covers the code points below 256. The functions of this section are the \<open>str\<close>
  methods and operators that \<open>mcp_server.py\<close> calls.
\<close>

definition startswith :: "'a list \<Rightarrow> 'a list \<Rightarrow> bool" where
  "startswith s pre = prefix pre s"

definition endswith :: "'a list \<Rightarrow> 'a list \<Rightarrow> bool" where
  "endswith s suf = suffix suf s"

text \<open>\<open>sub in s\<close>\<close>

fun py_in :: "'a list \<Rightarrow> 'a list \<Rightarrow> bool" where
  "py_in sub [] = (sub = [])"
| "py_in sub (c # cs) = (prefix sub (c # cs) \<or> py_in sub cs)"

text \<open>
  \<open>s.count(sub)\<close>: the occurrences are searched from the left, and the search goes
  on behind the end of each occurrence found. The empty \<open>sub\<close> is counted once before
  every character and once at the end.
\<close>

function count_from :: "'a list \<Rightarrow> 'a list \<Rightarrow> nat" where
  "count_from [] sub = 0"
| "count_from (c # cs) sub =
     (if sub \<noteq> [] \<and> prefix sub (c # cs)
      then Suc (count_from (drop (length sub) (c # cs)) sub)
      else count_from cs sub)"
  by pat_completeness auto
termination
  by (relation "measure (\<lambda>(s, sub). length s)") auto

definition py_count :: "'a list \<Rightarrow> 'a list \<Rightarrow> nat" where
  "py_count s sub = (if sub = [] then length s + 1 else count_from s sub)"

text \<open>\<open>s.replace(old, new)\<close>\<close>

function replace_from :: "'a list \<Rightarrow> 'a list \<Rightarrow> 'a list \<Rightarrow> 'a list" where
  "replace_from [] old new = []"
| "replace_from (c # cs) old new =
     (if old \<noteq> [] \<and> prefix old (c # cs)
      then new @ replace_from (drop (length old) (c # cs)) old new
      else c # replace_from cs old new)"
  by pat_completeness auto
termination
  by (relation "measure (\<lambda>(s, old, new). length s)") auto

definition py_replace :: "'a list \<Rightarrow> 'a list \<Rightarrow> 'a list \<Rightarrow> 'a list" where
  "py_replace s old new =
     (if old = [] then new @ concat (map (\<lambda>c. c # new) s) else replace_from s old new)"

text \<open>\<open>s.replace(old, new, 1)\<close>\<close>

fun replace_first :: "'a list \<Rightarrow> 'a list \<Rightarrow> 'a list \<Rightarrow> 'a list" where
  "replace_first [] old new = []"
| "replace_first (c # cs) old new =
     (if prefix old (c # cs) then new @ drop (length old) (c # cs)
      else c # replace_first cs old new)"

definition py_replace_1 :: "'a list \<Rightarrow> 'a list \<Rightarrow> 'a list \<Rightarrow> 'a list" where
  "py_replace_1 s old new = (if old = [] then new @ s else replace_first s old new)"

text \<open>\<open>s.split(sep)\<close> for a separator of one character, and \<open>sep.join(xs)\<close>\<close>

fun split_sep :: "'a \<Rightarrow> 'a list \<Rightarrow> 'a list list" where
  "split_sep sep [] = [[]]"
| "split_sep sep (c # cs) =
     (if c = sep then [] # split_sep sep cs
      else (case split_sep sep cs of [] \<Rightarrow> [[c]] | w # ws \<Rightarrow> (c # w) # ws))"

fun join :: "'a list \<Rightarrow> 'a list list \<Rightarrow> 'a list" where
  "join sep [] = []"
| "join sep [x] = x"
| "join sep (x # y # ys) = x @ sep @ join sep (y # ys)"

text \<open>\<open>s.lower()\<close> on the code points below 256\<close>

definition lower_char :: "char \<Rightarrow> char" where
  "lower_char c =
     (let n = (of_char c :: nat)
      in if (65 \<le> n \<and> n \<le> 90) \<or> (192 \<le> n \<and> n \<le> 222 \<and> n \<noteq> 215)
         then char_of (n + 32) else c)"

definition py_lower :: "string \<Rightarrow> string" where
  "py_lower s = map lower_char s"

text \<open>\<open>s.strip()\<close>: the characters for which \<open>isspace\<close> holds are removed at both ends\<close>

definition is_space :: "char \<Rightarrow> bool" where
  "is_space c =
     (let n = (of_char c :: nat)
      in (9 \<le> n \<and> n \<le> 13) \<or> (28 \<le> n \<and> n \<le> 32) \<or> n = 133 \<or> n = 160)"

definition py_strip :: "string \<Rightarrow> string" where
  "py_strip s = rev (dropWhile is_space (rev (dropWhile is_space s)))"

text \<open>\<open>str(n)\<close> for a natural number\<close>

definition digit_char :: "nat \<Rightarrow> char" where
  "digit_char d = char_of (48 + d)"

function str_nat :: "nat \<Rightarrow> string" where
  "str_nat n = (if n < 10 then [digit_char n] else str_nat (n div 10) @ [digit_char (n mod 10)])"
  by pat_completeness auto
termination
  by (relation "measure (\<lambda>n. n)") auto

text \<open>The value of a decimal numeral, read from the left.\<close>

definition digits_value :: "string \<Rightarrow> nat" where
  "digits_value s = foldl (\<lambda>acc c. 10 * acc + (of_char c - 48)) 0 s"

abbreviation LF :: char where "LF \<equiv> CHR 0x0A"
abbreviation CR :: char where "CR \<equiv> CHR 0x0D"
abbreviation SEP :: char where "SEP \<equiv> CHR ''/''"

section \<open>Paths\<close>

text \<open>
  A \<open>pathlib\<close> path on a POSIX host: the anchor (\<open>''''\<close> for a relative path,
  \<open>''/''\<close>, or \<open>''//''\<close>) and the segments below it.
\<close>

record ppath =
  anchor :: string
  parts :: "string list"

text \<open>\<open>Path(s)\<close>: empty segments and \<open>.\<close> are dropped, \<open>..\<close> is kept\<close>

definition pure_path :: "string \<Rightarrow> ppath" where
  "pure_path s =
     \<lparr>anchor = (if take 2 s = ''//'' \<and> take 3 s \<noteq> ''///'' then ''//''
                else if take 1 s = ''/'' then ''/'' else ''''),
      parts = filter (\<lambda>w. w \<noteq> [] \<and> w \<noteq> ''.'') (split_sep SEP s)\<rparr>"

text \<open>\<open>str(p)\<close>\<close>

definition str_path :: "ppath \<Rightarrow> string" where
  "str_path p =
     (if parts p = [] then (if anchor p = [] then ''.'' else anchor p)
      else anchor p @ join ''/'' (parts p))"

text \<open>\<open>p.parent\<close>\<close>

definition parent :: "ppath \<Rightarrow> ppath" where
  "parent p = p\<lparr>parts := butlast (parts p)\<rparr>"

text \<open>\<open>p.name\<close> and \<open>p.suffix\<close>\<close>

definition path_name :: "ppath \<Rightarrow> string" where
  "path_name p = (if parts p = [] then [] else last (parts p))"

text \<open>
  \<open>name.rfind('.')\<close> as the number of characters in front of the last dot, if there is
  a dot.
\<close>

fun rfind_dot :: "string \<Rightarrow> nat option" where
  "rfind_dot [] = None"
| "rfind_dot (c # cs) =
     (case rfind_dot cs of Some i \<Rightarrow> Some (Suc i)
      | None \<Rightarrow> if c = CHR ''.'' then Some 0 else None)"

definition path_suffix :: "ppath \<Rightarrow> string" where
  "path_suffix p =
     (let name = path_name p
      in case rfind_dot name of None \<Rightarrow> []
         | Some i \<Rightarrow> if 0 < i \<and> i < length name - 1 then drop i name else [])"

datatype exn =
    ValueError | RuntimeError | OSError
  | FileNotFoundError | FileExistsError | NotADirectoryError | IsADirectoryError
  | PermissionError | UnicodeDecodeError

text \<open>
  \<open>p.relative_to(other)\<close>: \<open>other\<close> has to be \<open>p\<close> or one of its ancestors, else
  \<open>ValueError\<close> is raised.
\<close>

definition relative_to :: "ppath \<Rightarrow> ppath \<Rightarrow> exn + ppath" where
  "relative_to p other =
     (if anchor p = anchor other \<and> prefix (parts other) (parts p)
      then Inr \<lparr>anchor = [], parts = drop (length (parts other)) (parts p)\<rparr>
      else Inl ValueError)"

section \<open>The host and the file system\<close>

text \<open>
  What the server takes from the operating system and from the Python library without
  defining it: \<open>realpath\<close> gives the canonical form of a path string (absolute, symbolic
  links followed, \<open>.\<close> and \<open>..\<close> collapsed) or raises; \<open>stat_error\<close> is the error
  that \<open>os.stat\<close> raises for a canonical path when it cannot read the status for a
  reason other than the path not being there (a directory above it may not be searched,
  a name is too long), \<open>None\<close> when the status can be read; \<open>rglob\<close> lists the paths
  under a directory whose names match a pattern; \<open>exn_str\<close> is the text \<open>str(e)\<close> of
  an exception. The server never creates, removes or retargets a symbolic link and
  changes no permission, and the resolution does not ask whether the path exists, so
  \<open>realpath\<close> and \<open>stat_error\<close> do not change while the server runs.
\<close>

datatype node = Dir | File nat "string option"

text \<open>
  A regular file is its size in bytes and its content decoded as UTF-8 (\<open>None\<close> when the
  bytes are not valid UTF-8). The file system gives the node at each canonical path.
\<close>

type_synonym fs = "ppath \<Rightarrow> node option"

record host =
  realpath :: "string \<Rightarrow> exn + string"
  stat_error :: "ppath \<Rightarrow> exn option"
  rglob :: "fs \<Rightarrow> ppath \<Rightarrow> string \<Rightarrow> exn + ppath list"
  exn_str :: "exn \<Rightarrow> string"

text \<open>\<open>Path(s).resolve()\<close>\<close>

definition resolve :: "host \<Rightarrow> string \<Rightarrow> exn + ppath" where
  "resolve h s = (case realpath h s of Inl e \<Rightarrow> Inl e | Inr r \<Rightarrow> Inr (pure_path r))"

text \<open>
  \<open>p.exists()\<close>, \<open>p.is_file()\<close> and \<open>p.is_dir()\<close> call \<open>os.stat\<close>. They answer
  \<open>False\<close> when the path is not there, and raise every other error of \<open>os.stat\<close>.
\<close>

definition exists :: "host \<Rightarrow> fs \<Rightarrow> ppath \<Rightarrow> exn + bool" where
  "exists h fs p =
     (case stat_error h p of Some e \<Rightarrow> Inl e
      | None \<Rightarrow> Inr (fs p \<noteq> None))"

definition is_file :: "host \<Rightarrow> fs \<Rightarrow> ppath \<Rightarrow> exn + bool" where
  "is_file h fs p =
     (case stat_error h p of Some e \<Rightarrow> Inl e
      | None \<Rightarrow> Inr (case fs p of Some (File n t) \<Rightarrow> True | _ \<Rightarrow> False))"

definition is_dir :: "host \<Rightarrow> fs \<Rightarrow> ppath \<Rightarrow> exn + bool" where
  "is_dir h fs p =
     (case stat_error h p of Some e \<Rightarrow> Inl e
      | None \<Rightarrow> Inr (case fs p of Some Dir \<Rightarrow> True | _ \<Rightarrow> False))"

text \<open>
  \<open>os.path.getsize\<close> raises every error of \<open>os.stat\<close>. The tools ask for the size of
  regular files only; the size the host gives for a directory is not modelled.
\<close>

definition getsize :: "host \<Rightarrow> fs \<Rightarrow> ppath \<Rightarrow> exn + nat" where
  "getsize h fs p =
     (case stat_error h p of Some e \<Rightarrow> Inl e
      | None \<Rightarrow>
         (case fs p of None \<Rightarrow> Inl FileNotFoundError
          | Some Dir \<Rightarrow> Inr 0
          | Some (File n t) \<Rightarrow> Inr n))"

text \<open>
  Reading in text mode translates \<open>\r\n\<close> and a lone \<open>\r\<close> to \<open>\n\<close>
  (\<open>open\<close> with its default \<open>newline=None\<close>).
\<close>

fun universal_newlines :: "string \<Rightarrow> string" where
  "universal_newlines [] = []"
| "universal_newlines (c # cs) =
     (if c = CR
      then (case cs of [] \<Rightarrow> [LF]
            | d # ds \<Rightarrow> if d = LF then LF # universal_newlines ds
                        else LF # universal_newlines (d # ds))
      else c # universal_newlines cs)"

text \<open>\<open>open(p, 'r', encoding='utf-8').read()\<close>\<close>

definition read_text :: "fs \<Rightarrow> ppath \<Rightarrow> exn + string" where
  "read_text fs p =
     (case fs p of None \<Rightarrow> Inl FileNotFoundError
      | Some Dir \<Rightarrow> Inl IsADirectoryError
      | Some (File n None) \<Rightarrow> Inl UnicodeDecodeError
      | Some (File n (Some raw)) \<Rightarrow> Inr (universal_newlines raw))"

text \<open>The number of bytes of the UTF-8 encoding.\<close>

definition utf8_len :: "string \<Rightarrow> nat" where
  "utf8_len s = sum_list (map (\<lambda>c. if (of_char c :: nat) < 128 then 1 else 2) s)"

text \<open>
  \<open>open(p, 'w', encoding='utf-8').write(content)\<close>: an existing regular file is
  overwritten, a new one needs its parent directory.
\<close>

definition write_text :: "fs \<Rightarrow> ppath \<Rightarrow> string \<Rightarrow> exn + fs" where
  "write_text fs p content =
     (case fs p of Some Dir \<Rightarrow> Inl IsADirectoryError
      | Some (File n t) \<Rightarrow> Inr (fs(p \<mapsto> File (utf8_len content) (Some content)))
      | None \<Rightarrow>
         (case fs (parent p) of None \<Rightarrow> Inl FileNotFoundError
          | Some (File n t) \<Rightarrow> Inl NotADirectoryError
          | Some Dir \<Rightarrow> Inr (fs(p \<mapsto> File (utf8_len content) (Some content)))))"

text \<open>\<open>os.mkdir(p)\<close>\<close>

definition os_mkdir :: "fs \<Rightarrow> ppath \<Rightarrow> exn + fs" where
  "os_mkdir fs p =
     (case fs p of Some n \<Rightarrow> Inl FileExistsError
      | None \<Rightarrow>
         (case fs (parent p) of None \<Rightarrow> Inl FileNotFoundError
          | Some (File n t) \<Rightarrow> Inl NotADirectoryError
          | Some Dir \<Rightarrow> Inr (fs(p \<mapsto> Dir))))"

text \<open>\<open>p.mkdir(parents=True, exist_ok=True)\<close>\<close>

text \<open>
  The \<open>except OSError\<close> branch of \<open>Path.mkdir\<close>: with \<open>exist_ok\<close> the error is
  dropped when the path is a directory; \<open>is_dir\<close> may raise in its turn.
\<close>

definition mkdir_exist_ok :: "host \<Rightarrow> fs \<Rightarrow> ppath \<Rightarrow> exn \<Rightarrow> exn + fs" where
  "mkdir_exist_ok h fs p e =
     (case is_dir h fs p of Inl e' \<Rightarrow> Inl e'
      | Inr d \<Rightarrow> if d then Inr fs else Inl e)"

function mkdir_parents :: "host \<Rightarrow> fs \<Rightarrow> ppath \<Rightarrow> exn + fs" where
  "mkdir_parents h fs p =
     (case os_mkdir fs p of Inr fs' \<Rightarrow> Inr fs'
      | Inl e \<Rightarrow>
         if e = FileNotFoundError then
           (if parent p = p then Inl e
            else (case mkdir_parents h fs (parent p) of Inl e1 \<Rightarrow> Inl e1
                  | Inr fs1 \<Rightarrow>
                     (case os_mkdir fs1 p of Inr fs2 \<Rightarrow> Inr fs2
                      | Inl e2 \<Rightarrow>
                         if e2 = FileNotFoundError then Inl e2
                         else mkdir_exist_ok h fs1 p e2)))
         else mkdir_exist_ok h fs p e)"
  by pat_completeness auto
termination
proof (relation "measure (\<lambda>(h, fs, p). length (parts p))")
  show "wf (measure (\<lambda>(h, fs, p). length (parts p)))" by simp
next
  fix h :: host and fs :: fs and p :: ppath and e :: exn
  assume "parent p \<noteq> p"
  then have "parts p \<noteq> []" by (auto simp: parent_def)
  then show "((h, fs, parent p), (h, fs, p)) \<in> measure (\<lambda>(h, fs, p). length (parts p))"
    by (simp add: parent_def)
qed

section \<open>The security configuration\<close>

record config =
  allowed_root :: string
  blocked_patterns :: "string list"
  allowed_extensions :: "string list"
  max_file_size :: nat

text \<open>The lists and the size limit that \<open>SecurityConfig.__init__\<close> sets.\<close>

definition default_blocked_patterns :: "string list" where
  "default_blocked_patterns =
     [''.git'', ''.env'', ''.ssh'', ''node_modules'', ''__pycache__'', ''.venv'', ''venv'',
      ''*.key'', ''*.pem'', ''*.p12'', ''id_rsa'', ''id_ed25519'']"

definition default_allowed_extensions :: "string list" where
  "default_allowed_extensions =
     [''.py'', ''.js'', ''.ts'', ''.jsx'', ''.tsx'',
      ''.java'', ''.c'', ''.cpp'', ''.h'', ''.hpp'',
      ''.go'', ''.rs'', ''.rb'', ''.php'',
      ''.html'', ''.css'', ''.scss'', ''.json'',
      ''.md'', ''.txt'', ''.yaml'', ''.yml'',
      ''.toml'', ''.ini'', ''.cfg'', ''.xml'']"

definition default_max_file_size :: nat where
  "default_max_file_size = 10 * 1024 * 1024"

text \<open>
  The loop over \<open>blocked_patterns\<close> in \<open>is_path_allowed\<close>: the reason of the first
  pattern that matches, \<open>None\<close> when the loop ends without a match.
\<close>

fun scan_blocked :: "string list \<Rightarrow> string \<Rightarrow> string option" where
  "scan_blocked [] path_str = None"
| "scan_blocked (pattern # rest) path_str =
     (if startswith pattern ''*.'' then
        (if endswith path_str (tl pattern)
         then Some (''Blocked file extension: '' @ pattern)
         else scan_blocked rest path_str)
      else
        (if pattern \<in> set (split_sep SEP path_str)
         then Some (''Blocked pattern: '' @ pattern)
         else scan_blocked rest path_str))"

text \<open>The test that the loop applies to one pattern.\<close>

definition pattern_matches :: "string \<Rightarrow> string \<Rightarrow> bool" where
  "pattern_matches pattern path_str =
     (if startswith pattern ''*.'' then endswith path_str (tl pattern)
      else pattern \<in> set (split_sep SEP path_str))"

text \<open>
  \<open>abs_path.is_file() or not abs_path.exists()\<close>: \<open>exists\<close> is asked only when
  \<open>is_file\<close> has answered \<open>False\<close>, and what either of them raises is raised.
\<close>

definition file_or_missing :: "host \<Rightarrow> fs \<Rightarrow> ppath \<Rightarrow> exn + bool" where
  "file_or_missing h fs p =
     (case is_file h fs p of Inl e \<Rightarrow> Inl e
      | Inr f \<Rightarrow>
         if f then Inr True
         else (case exists h fs p of Inl e \<Rightarrow> Inl e
               | Inr ex \<Rightarrow> Inr (\<not> ex)))"

definition is_path_allowed :: "host \<Rightarrow> config \<Rightarrow> fs \<Rightarrow> string \<Rightarrow> bool \<times> string" where
  "is_path_allowed h cfg fs path =
     (case resolve h path of
        Inl e \<Rightarrow> (False, ''Path validation error: '' @ exn_str h e)
      | Inr abs_path \<Rightarrow>
         (case resolve h (allowed_root cfg) of
            Inl e \<Rightarrow> (False, ''Path validation error: '' @ exn_str h e)
          | Inr root \<Rightarrow>
             (case relative_to abs_path root of
                Inl e \<Rightarrow> (False, ''Path outside allowed directory: '' @ str_path root)
              | Inr rel \<Rightarrow>
                 (case scan_blocked (blocked_patterns cfg) (str_path abs_path) of
                    Some reason \<Rightarrow> (False, reason)
                  | None \<Rightarrow>
                     (case file_or_missing h fs abs_path of
                        Inl e \<Rightarrow> (False, ''Path validation error: '' @ exn_str h e)
                      | Inr check \<Rightarrow>
                         if check then
                           (let ext = py_lower (path_suffix abs_path)
                            in if ext \<noteq> [] \<and> ext \<notin> set (allowed_extensions cfg)
                               then (False, ''File extension not allowed: '' @ ext)
                               else (True, ''OK''))
                         else (True, ''OK''))))))"

definition check_file_size :: "host \<Rightarrow> config \<Rightarrow> fs \<Rightarrow> ppath \<Rightarrow> bool \<times> string" where
  "check_file_size h cfg fs p =
     (case getsize h fs p of
        Inl e \<Rightarrow> (False, ''Size check error: '' @ exn_str h e)
      | Inr sz \<Rightarrow>
         if sz > max_file_size cfg
         then (False, ''File too large: '' @ str_nat sz @ '' bytes (max: ''
                        @ str_nat (max_file_size cfg) @ '')'')
         else (True, ''OK''))"

section \<open>The tools\<close>


definition write_file :: "host \<Rightarrow> config \<Rightarrow> fs \<Rightarrow> string \<Rightarrow> string \<Rightarrow> string \<times> fs" where
  "write_file h cfg fs path content =
     (case is_path_allowed h cfg fs path of (allowed, reason) \<Rightarrow>
      (if \<not> allowed then (''Access denied: '' @ reason, fs)
       else (case resolve h path of
          Inl e \<Rightarrow> (''Error writing file: '' @ exn_str h e, fs)
        | Inr abs_path \<Rightarrow>
           (case mkdir_parents h fs (parent abs_path) of
              Inl e \<Rightarrow> (''Error writing file: '' @ exn_str h e, fs)
            | Inr fs1 \<Rightarrow>
               (case exists h fs1 abs_path of
                  Inl e \<Rightarrow> (''Error writing file: '' @ exn_str h e, fs1)
                | Inr existed \<Rightarrow>
                   (case write_text fs1 abs_path content of
                      Inl e \<Rightarrow> (''Error writing file: '' @ exn_str h e, fs1)
                    | Inr fs2 \<Rightarrow>
                       (let action = (if existed then ''Updated'' else ''Created'')
                        in (case relative_to abs_path (pure_path (allowed_root cfg)) of
                             Inl e \<Rightarrow> (''Error writing file: '' @ exn_str h e, fs2)
                           | Inr rel_path \<Rightarrow>
                              (action @ '' file: '' @ str_path rel_path, fs2)))))))))"

definition create_file :: "host \<Rightarrow> config \<Rightarrow> fs \<Rightarrow> string \<Rightarrow> string \<Rightarrow> string \<times> fs" where
  "create_file h cfg fs path content =
     (case is_path_allowed h cfg fs path of (allowed, reason) \<Rightarrow>
      (if \<not> allowed then (''Access denied: '' @ reason, fs)
       else (case resolve h path of
          Inl e \<Rightarrow> (''Error creating file: '' @ exn_str h e, fs)
        | Inr abs_path \<Rightarrow>
           (case exists h fs abs_path of
              Inl e \<Rightarrow> (''Error creating file: '' @ exn_str h e, fs)
            | Inr there \<Rightarrow>
               (if there
                then (''File already exists: '' @ path @ ''. Use write_file to update it.'', fs)
                else (case mkdir_parents h fs (parent abs_path) of
                   Inl e \<Rightarrow> (''Error creating file: '' @ exn_str h e, fs)
                 | Inr fs1 \<Rightarrow>
                    (case write_text fs1 abs_path content of
                       Inl e \<Rightarrow> (''Error creating file: '' @ exn_str h e, fs1)
                     | Inr fs2 \<Rightarrow>
                        (case relative_to abs_path (pure_path (allowed_root cfg)) of
                           Inl e \<Rightarrow> (''Error creating file: '' @ exn_str h e, fs2)
                         | Inr rel_path \<Rightarrow>
                            (''Created file: '' @ str_path rel_path, fs2)))))))))"

text \<open>The text of the answer when \<open>old_string\<close> is found more than once.\<close>

definition ambiguous_msg :: "nat \<Rightarrow> string \<Rightarrow> string" where
  "ambiguous_msg count file_path =
     ''Error: old_string appears '' @ str_nat count @ '' times in '' @ file_path @ ''. ''
     @ ''Use replace_all=True to replace all occurrences, or provide ''
     @ ''more context to make old_string unique.''"

text \<open>
  The part of \<open>edit_file\<close> behind the reading of the file: the two checks on
  \<open>old_string\<close>, the replacement, the writing and the answer.
\<close>

definition edit_content ::
  "host \<Rightarrow> config \<Rightarrow> fs \<Rightarrow> string \<Rightarrow> ppath \<Rightarrow> string \<Rightarrow> string \<Rightarrow> string \<Rightarrow> bool
   \<Rightarrow> string \<times> fs" where
  "edit_content h cfg fs file_path abs_path content old_string new_string replace_all =
     (if \<not> py_in old_string content
      then (''Error: old_string not found in '' @ file_path, fs)
      else if \<not> replace_all \<and> py_count content old_string > 1
      then (ambiguous_msg (py_count content old_string) file_path, fs)
      else
        (let new_content = (if replace_all then py_replace content old_string new_string
                            else py_replace_1 content old_string new_string);
             replacements = (if replace_all then py_count content old_string else 1)
         in (case write_text fs abs_path new_content of
              Inl e \<Rightarrow> (''Error editing file: '' @ exn_str h e, fs)
            | Inr fs' \<Rightarrow>
               (case relative_to abs_path (pure_path (allowed_root cfg)) of
                  Inl e \<Rightarrow> (''Error editing file: '' @ exn_str h e, fs')
                | Inr rel_path \<Rightarrow>
                   (''Successfully replaced '' @ str_nat replacements
                    @ '' occurrence(s) in '' @ str_path rel_path, fs')))))"

definition edit_file ::
  "host \<Rightarrow> config \<Rightarrow> fs \<Rightarrow> string \<Rightarrow> string \<Rightarrow> string \<Rightarrow> bool \<Rightarrow> string \<times> fs" where
  "edit_file h cfg fs file_path old_string new_string replace_all =
     (case is_path_allowed h cfg fs file_path of (allowed, reason) \<Rightarrow>
      (if \<not> allowed then (''Access denied: '' @ reason, fs)
       else (case resolve h file_path of
          Inl e \<Rightarrow> (''Error editing file: '' @ exn_str h e, fs)
        | Inr abs_path \<Rightarrow>
           (case exists h fs abs_path of
              Inl e \<Rightarrow> (''Error editing file: '' @ exn_str h e, fs)
            | Inr there \<Rightarrow>
               (if \<not> there then (''File not found: '' @ file_path, fs)
                else (case is_file h fs abs_path of
                   Inl e \<Rightarrow> (''Error editing file: '' @ exn_str h e, fs)
                 | Inr regular \<Rightarrow>
                    (if \<not> regular then (''Not a file: '' @ file_path, fs)
                     else (case check_file_size h cfg fs abs_path of
                        (size_ok, size_reason) \<Rightarrow>
                         (if \<not> size_ok then (size_reason, fs)
                          else (case read_text fs abs_path of
                             Inl e \<Rightarrow>
                              (if e = UnicodeDecodeError
                               then (''File appears to be binary or uses unsupported encoding: ''
                                     @ file_path, fs)
                               else (''Error editing file: '' @ exn_str h e, fs))
                           | Inr content \<Rightarrow>
                              edit_content h cfg fs file_path abs_path content
                                old_string new_string replace_all))))))))))"

text \<open>\<open>f.readlines()\<close> on the text that was read: each line keeps its \<open>\n\<close>\<close>

fun readlines :: "string \<Rightarrow> string list" where
  "readlines [] = []"
| "readlines (c # cs) =
     (if c = LF then [c] # readlines cs
      else (case readlines cs of [] \<Rightarrow> [[c]] | l # ls \<Rightarrow> (c # l) # ls))"

text \<open>
  The lines of one file that contain the search term, with their numbers from 1
  (\<open>enumerate(lines, 1)\<close>).
\<close>

definition matching_lines :: "string \<Rightarrow> string list \<Rightarrow> (nat \<times> string) list" where
  "matching_lines search_term lines =
     filter (\<lambda>(i, line). py_in (py_lower search_term) (py_lower line))
       (zip [1 ..< Suc (length lines)] lines)"

definition format_entry :: "ppath \<Rightarrow> nat \<times> string \<Rightarrow> string" where
  "format_entry rel_path il =
     str_path rel_path @ '':'' @ str_nat (fst il) @ '': '' @ py_strip (snd il)"

text \<open>
  The \<open>try\<close> block of the loop over the paths that \<open>rglob\<close> gives: the entries that
  an open file adds to \<open>results\<close>. Whatever is raised in the block skips the file.
\<close>

definition read_entries :: "fs \<Rightarrow> string \<Rightarrow> ppath \<Rightarrow> ppath \<Rightarrow> ppath \<Rightarrow> string list" where
  "read_entries fs search_term search_path file_path target =
     (case read_text fs target of
        Inl e \<Rightarrow> []
      | Inr content \<Rightarrow>
         (let matches = matching_lines search_term (readlines content)
          in (if matches = [] then []
              else (case relative_to file_path search_path of
                     Inl e \<Rightarrow> []
                   | Inr rel_path \<Rightarrow> map (format_entry rel_path) matches))))"

text \<open>
  One round of the loop: a path that the policy denies is skipped; \<open>is_file\<close> stands
  outside the \<open>try\<close> block, so what it raises ends the search. \<open>is_file\<close> and
  \<open>open\<close> follow symbolic links, so they look at the node of the canonical path.
\<close>

definition file_entries ::
  "host \<Rightarrow> config \<Rightarrow> fs \<Rightarrow> string \<Rightarrow> ppath \<Rightarrow> ppath \<Rightarrow> exn + string list" where
  "file_entries h cfg fs search_term search_path file_path =
     (if \<not> fst (is_path_allowed h cfg fs (str_path file_path)) then Inr []
      else (case resolve h (str_path file_path) of
         Inl e \<Rightarrow> Inr []
       | Inr target \<Rightarrow>
          (case is_file h fs target of
             Inl e \<Rightarrow> Inl e
           | Inr regular \<Rightarrow>
              Inr (if regular
                   then read_entries fs search_term search_path file_path target
                   else []))))"

text \<open>The list \<open>results\<close> when the loop has ended, or what was raised in it.\<close>

fun search_results ::
  "host \<Rightarrow> config \<Rightarrow> fs \<Rightarrow> string \<Rightarrow> ppath \<Rightarrow> ppath list \<Rightarrow> exn + string list" where
  "search_results h cfg fs search_term search_path [] = Inr []"
| "search_results h cfg fs search_term search_path (file_path # rest) =
     (case file_entries h cfg fs search_term search_path file_path of
        Inl e \<Rightarrow> Inl e
      | Inr entries \<Rightarrow>
         (case search_results h cfg fs search_term search_path rest of
            Inl e \<Rightarrow> Inl e
          | Inr results \<Rightarrow> Inr (entries @ results)))"

text \<open>The text that \<open>search_in_files\<close> makes of \<open>results\<close>.\<close>

definition search_output :: "string \<Rightarrow> string list \<Rightarrow> string" where
  "search_output search_term results =
     (if results \<noteq> [] then
        (let count = length results;
             limited = take 50 results;
             output = join [LF] limited
         in if count > 50
            then output @ [LF, LF] @ ''... and '' @ str_nat (count - 50) @ '' more results''
            else output)
      else ''No matches found for '' @ [CHR 0x27] @ search_term @ [CHR 0x27])"

definition search_in_files :: "host \<Rightarrow> config \<Rightarrow> fs \<Rightarrow> string \<Rightarrow> string \<Rightarrow> string \<Rightarrow> string" where
  "search_in_files h cfg fs search_term directory file_pattern =
     (case is_path_allowed h cfg fs directory of (allowed, reason) \<Rightarrow>
      (if \<not> allowed then ''Access denied: '' @ reason
       else (case resolve h directory of
          Inl e \<Rightarrow> ''Error searching files: '' @ exn_str h e
        | Inr search_path \<Rightarrow>
           (case rglob h fs search_path file_pattern of
              Inl e \<Rightarrow> ''Error searching files: '' @ exn_str h e
            | Inr files \<Rightarrow>
               (case search_results h cfg fs search_term search_path files of
                  Inl e \<Rightarrow> ''Error searching files: '' @ exn_str h e
                | Inr results \<Rightarrow> search_output search_term results)))))"

section \<open>A sample host\<close>

text \<open>
  A host for the examples. Its \<open>realpath\<close> walks the segments of the path from the
  root, steps back at \<open>..\<close>, and replaces a prefix that is a symbolic link by the target
  of the link (the targets in the table are canonical).
\<close>

fun walk :: "(string list \<times> string list) list \<Rightarrow> string list \<Rightarrow> string list \<Rightarrow> string list" where
  "walk links resolved [] = resolved"
| "walk links resolved (c # rest) =
     (if c = [] \<or> c = ''.'' then walk links resolved rest
      else if c = ''..'' then walk links (butlast resolved) rest
      else (case map_of links (resolved @ [c]) of
              None \<Rightarrow> walk links (resolved @ [c]) rest
            | Some target \<Rightarrow> walk links target rest))"

definition sample_realpath ::
  "string \<Rightarrow> (string list \<times> string list) list \<Rightarrow> string \<Rightarrow> exn + string" where
  "sample_realpath cwd links s =
     Inr (''/'' @ join ''/''
       (walk links [] (split_sep SEP (if startswith s ''/'' then s else cwd @ ''/'' @ s))))"

definition at :: "string list \<Rightarrow> ppath" where
  "at segs = \<lparr>anchor = ''/'', parts = segs\<rparr>"

text \<open>
  The working directory is \<open>/srv\<close>; \<open>/tmp\<close> is a link to \<open>/private/tmp\<close> and
  \<open>/srv/ws/out\<close> is a link to \<open>/etc\<close>. The directory \<open>/srv/ws/locked\<close> may not be
  searched, so \<open>os.stat\<close> raises \<open>PermissionError\<close> for every path below it.
\<close>

definition demo_host :: host where
  "demo_host =
     \<lparr>realpath = sample_realpath ''/srv''
        [([''tmp''], [''private'', ''tmp'']), ([''srv'', ''ws'', ''out''], [''etc''])],
      stat_error = (\<lambda>p.
        if strict_prefix [''srv'', ''ws'', ''locked''] (parts p) then Some PermissionError
        else None),
      rglob = (\<lambda>fs p pat.
        Inr (if pat = ''*.txt'' then [p\<lparr>parts := parts p @ [''log.txt'']\<rparr>]
             else if pat = ''*.md'' then [p\<lparr>parts := parts p @ [''notes.md'']\<rparr>]
             else [])),
      exn_str = (\<lambda>e. ''error'')\<rparr>"

definition notes_text :: string where
  "notes_text = ''Alpha'' @ [LF] @ ''  beta ALPHA '' @ [LF] @ ''gamma'' @ [LF]"

definition log_text :: string where
  "log_text = concat (replicate 51 (''hit'' @ [LF]))"

definition demo_fs :: fs where
  "demo_fs =
     [at [] \<mapsto> Dir,
      at [''etc''] \<mapsto> Dir,
      at [''etc'', ''passwd''] \<mapsto> File 4 (Some ''root''),
      at [''srv''] \<mapsto> Dir,
      at [''srv'', ''ws''] \<mapsto> Dir,
      at [''srv'', ''ws'', ''a.txt''] \<mapsto> File 3 (Some ''aaa''),
      at [''srv'', ''ws'', ''b.txt''] \<mapsto> File 11 (Some ''x = 1 x = 2''),
      at [''srv'', ''ws'', ''log.txt''] \<mapsto> File 204 (Some log_text),
      at [''srv'', ''ws'', ''notes.md''] \<mapsto> File 26 (Some notes_text),
      at [''srv'', ''ws'', ''rel.d''] \<mapsto> Dir,
      at [''srv'', ''ws'', ''locked''] \<mapsto> Dir,
      at [''srv'', ''ws'', ''.git''] \<mapsto> Dir,
      at [''srv'', ''ws'', ''.git'', ''config''] \<mapsto> File 0 (Some []),
      at [''private''] \<mapsto> Dir,
      at [''private'', ''tmp''] \<mapsto> Dir,
      at [''private'', ''tmp'', ''ws''] \<mapsto> Dir,
      at [''private'', ''tmp'', ''ws'', ''a.txt''] \<mapsto> File 3 (Some ''a a'')]"

definition demo_cfg :: config where
  "demo_cfg =
     \<lparr>allowed_root = ''/srv/ws'',
      blocked_patterns = default_blocked_patterns,
      allowed_extensions = default_allowed_extensions,
      max_file_size = default_max_file_size\<rparr>"


text \<open>The same configuration with the root given through the link \<open>/tmp\<close>.\<close>

definition tmp_cfg :: config where
  "tmp_cfg = demo_cfg\<lparr>allowed_root := ''/tmp/ws''\<rparr>"

section \<open>Facts about the string functions\<close>

declare count_from.simps [simp del]
declare replace_from.simps [simp del]
declare str_nat.simps [simp del]
declare mkdir_parents.simps [simp del]

text \<open>\<open>sub in s\<close> holds exactly when \<open>s\<close> is made of a front, \<open>sub\<close> and a rest.\<close>

lemma py_in_sublist: "py_in sub s \<longleftrightarrow> sublist sub s"
  by (induction s) (auto simp: sublist_Cons_right)





lemma count_from_pos: "sub \<noteq> [] \<Longrightarrow> (0 < count_from s sub) = sublist sub s"
  by (induction s sub rule: count_from.induct)
     (auto simp: count_from.simps sublist_Cons_right)






section \<open>Facts about the tools\<close>

text \<open>
  When the policy allows the path and the file exists, is within the size limit and
  decodes, \<open>edit_file\<close> works on the text that was read.
\<close>

lemma allowed_stat_ok:
  assumes "fst (is_path_allowed h cfg fs p)" and "resolve h p = Inr a"
  shows "stat_error h a = None"
proof (rule ccontr)
  assume "stat_error h a \<noteq> None"
  then obtain e where "stat_error h a = Some e" by auto
  then have "file_or_missing h fs a = Inl e"
    by (simp add: file_or_missing_def is_file_def)
  with assms(2) have "\<not> fst (is_path_allowed h cfg fs p)"
    by (simp add: is_path_allowed_def split: sum.splits option.splits)
  with assms(1) show False by simp
qed

lemma edit_file_loaded:
  assumes "fst (is_path_allowed h cfg fs p)"
    and "resolve h p = Inr a"
    and "fs a = Some (File n (Some raw))"
    and "n \<le> max_file_size cfg"
  shows "edit_file h cfg fs p old new ra =
         edit_content h cfg fs p a (universal_newlines raw) old new ra"
  using assms allowed_stat_ok [OF assms(1,2)]
  by (cases "is_path_allowed h cfg fs p")
     (simp add: edit_file_def exists_def is_file_def check_file_size_def getsize_def
        read_text_def)

lemma write_text_file:
  "fs a = Some (File n t) \<Longrightarrow>
   write_text fs a c = Inr (fs(a \<mapsto> File (utf8_len c) (Some c)))"
  by (simp add: write_text_def)

text \<open>
  With more than one occurrence counted, \<open>edit_file\<close> refuses the single replacement;
  with \<open>replace_all\<close> it writes the text with every counted occurrence replaced, and
  reports the count when the path of the answer can be formed.
\<close>

lemma py_in_of_count: "1 < py_count content old \<Longrightarrow> py_in old content"
  by (cases "old = []") (simp_all add: py_in_sublist py_count_def count_from_pos [symmetric])

lemma edit_multiple_occurrences:
  assumes "fst (is_path_allowed h cfg fs p)"
    and "resolve h p = Inr a"
    and "fs a = Some (File n (Some raw))"
    and "n \<le> max_file_size cfg"
    and "content = universal_newlines raw"
    and "1 < py_count content old"
  shows "edit_file h cfg fs p old new False = (ambiguous_msg (py_count content old) p, fs)
    \<and> (relative_to a (pure_path (allowed_root cfg)) = Inr rel \<longrightarrow>
        edit_file h cfg fs p old new True
          = (''Successfully replaced '' @ str_nat (py_count content old)
               @ '' occurrence(s) in '' @ str_path rel,
             fs(a \<mapsto> File (utf8_len (py_replace content old new))
                          (Some (py_replace content old new)))))"
proof -
  have ed: "edit_file h cfg fs p old new ra = edit_content h cfg fs p a content old new ra" for ra
    using assms(1-5) by (simp add: edit_file_loaded)
  have mem: "py_in old content" using assms(6) by (rule py_in_of_count)
  have w: "write_text fs a c = Inr (fs(a \<mapsto> File (utf8_len c) (Some c)))" for c
    using assms(3) by (rule write_text_file)
  show ?thesis
    using mem assms(6) by (simp add: ed edit_content_def w Let_def)
qed

text \<open>
  Creating directories adds entries and changes none, the policy looks at the file
  system only to see whether the target is a regular file or missing, and a write that
  reports success has passed the policy and written the content.
\<close>

lemma universal_newlines_id: "CR \<notin> set s \<Longrightarrow> universal_newlines s = s"
  by (induction s) auto






text \<open>\<open>str_nat\<close> writes the decimal numeral of its argument.\<close>

lemma digits_value_snoc:
  "digits_value (s @ [c]) = 10 * digits_value s + (of_char c - 48)"
  by (simp add: digits_value_def)

lemma digits_value_digit: "d < 10 \<Longrightarrow> digits_value [digit_char d] = d"
  by (simp add: digits_value_def digit_char_def)

lemma digits_value_str_nat: "digits_value (str_nat n) = n"
proof (induction n rule: str_nat.induct)
  case (1 n)
  show ?case
  proof (cases "n < 10")
    case True
    then show ?thesis by (subst str_nat.simps) (simp add: digits_value_digit)
  next
    case False
    have "of_char (digit_char (n mod 10)) - 48 = n mod 10"
      by (simp add: digit_char_def)
    with False 1 show ?thesis
      by (subst str_nat.simps) (simp add: digits_value_snoc)
  qed
qed

lemma matching_lines_pos:
  "(i, line) \<in> set (matching_lines t ls) \<Longrightarrow>
   0 < i \<and> i \<le> length ls \<and> line = ls ! (i - 1) \<and> py_in (py_lower t) (py_lower line)"
  by (auto simp: matching_lines_def set_zip simp del: upt_Suc)

text \<open>
  The matching lines, by their index: line \<open>k\<close> (from 0) is numbered \<open>k + 1\<close>, and
  it is kept when it holds the term, both in lower case.
\<close>

lemma zip_numbered:
  "zip [1 ..< Suc (length ls)] ls = map (\<lambda>k. (Suc k, ls ! k)) [0 ..< length ls]"
  by (rule nth_equalityI) (simp_all del: upt_Suc)

lemma matching_lines_index:
  "matching_lines t ls =
     map (\<lambda>k. (Suc k, ls ! k))
       (filter (\<lambda>k. sublist (py_lower t) (py_lower (ls ! k))) [0 ..< length ls])"
  unfolding matching_lines_def zip_numbered filter_map
  by (simp add: comp_def py_in_sublist)

lemma read_entries_index:
  "read_entries fs t sp fp target =
     (case fs target of
        Some (File n (Some raw)) \<Rightarrow>
          (case relative_to fp sp of
             Inl e \<Rightarrow> []
           | Inr rel \<Rightarrow>
               map (\<lambda>k. str_path rel @ '':'' @ str_nat (Suc k) @ '': ''
                          @ py_strip (readlines (universal_newlines raw) ! k))
                 (filter (\<lambda>k. sublist (py_lower t)
                                 (py_lower (readlines (universal_newlines raw) ! k)))
                    [0 ..< length (readlines (universal_newlines raw))]))
      | _ \<Rightarrow> [])"
  by (simp add: read_entries_def read_text_def Let_def matching_lines_index format_entry_def
      comp_def split: option.splits node.splits sum.splits)

text \<open>
  A round of the loop never raises: a path that the policy allows has a status that can
  be read. So a round gives the entries of the file, written out here.
\<close>

lemma file_entries_index:
  "file_entries h cfg fs t sp fp =
     Inr (if fst (is_path_allowed h cfg fs (str_path fp))
          then (case resolve h (str_path fp) of
                  Inl e \<Rightarrow> []
                | Inr target \<Rightarrow>
                   (case fs target of
                      Some (File n (Some raw)) \<Rightarrow>
                        (case relative_to fp sp of
                           Inl e \<Rightarrow> []
                         | Inr rel \<Rightarrow>
                             map (\<lambda>k. str_path rel @ '':'' @ str_nat (Suc k) @ '': ''
                                        @ py_strip (readlines (universal_newlines raw) ! k))
                               (filter (\<lambda>k. sublist (py_lower t)
                                               (py_lower (readlines (universal_newlines raw) ! k)))
                                  [0 ..< length (readlines (universal_newlines raw))]))
                    | _ \<Rightarrow> []))
          else [])"
proof (cases "fst (is_path_allowed h cfg fs (str_path fp))")
  case False
  then show ?thesis by (simp add: file_entries_def)
next
  case al: True
  show ?thesis
  proof (cases "resolve h (str_path fp)")
    case (Inl e)
    with al show ?thesis by (simp add: file_entries_def)
  next
    case target: (Inr target)
    from allowed_stat_ok [OF al target] have st: "stat_error h target = None" .
    show ?thesis
    proof (cases "fs target")
      case None
      with al target st show ?thesis
        by (simp add: file_entries_def is_file_def)
    next
      case (Some nd)
      show ?thesis
      proof (cases nd)
        case Dir
        with Some al target st show ?thesis
          by (simp add: file_entries_def is_file_def)
      next
        case (File n body)
        with Some al target st
        have "file_entries h cfg fs t sp fp = Inr (read_entries fs t sp fp target)"
          by (simp add: file_entries_def is_file_def)
        also have "read_entries fs t sp fp target =
          (case fs target of
            Some (File n (Some raw)) \<Rightarrow>
              (case relative_to fp sp of
                 Inl e \<Rightarrow> []
               | Inr rel \<Rightarrow>
                   map (\<lambda>k. str_path rel @ '':'' @ str_nat (Suc k) @ '': ''
                              @ py_strip (readlines (universal_newlines raw) ! k))
                     (filter (\<lambda>k. sublist (py_lower t)
                                     (py_lower (readlines (universal_newlines raw) ! k)))
                        [0 ..< length (readlines (universal_newlines raw))]))
          | _ \<Rightarrow> [])"
          by (rule read_entries_index)
        finally show ?thesis
          using al target by simp
      qed
    qed
  qed
qed

lemma search_results_index:
  "search_results h cfg fs t sp files =
     Inr (concat (map (\<lambda>fp.
       if fst (is_path_allowed h cfg fs (str_path fp))
       then (case resolve h (str_path fp) of
               Inl e \<Rightarrow> []
             | Inr target \<Rightarrow>
                (case fs target of
                   Some (File n (Some raw)) \<Rightarrow>
                     (case relative_to fp sp of
                        Inl e \<Rightarrow> []
                      | Inr rel \<Rightarrow>
                          map (\<lambda>k. str_path rel @ '':'' @ str_nat (Suc k) @ '': ''
                                     @ py_strip (readlines (universal_newlines raw) ! k))
                            (filter (\<lambda>k. sublist (py_lower t)
                                            (py_lower (readlines (universal_newlines raw) ! k)))
                               [0 ..< length (readlines (universal_newlines raw))]))
                 | _ \<Rightarrow> []))
       else []) files))"
proof (induction files)
  case Nil
  show ?case by simp
next
  case (Cons fp rest)
  show ?case
    by (simp only: search_results.simps Cons.IH file_entries_index [of h cfg fs t sp fp]
        sum.case list.map concat.simps)
qed

text \<open>Lines that end in a line feed are read back as they are.\<close>

lemma readlines_line:
  "LF \<notin> set w \<Longrightarrow> readlines (w @ LF # rest) = (w @ [LF]) # readlines rest"
  by (induction w) auto

lemma readlines_replicate:
  "LF \<notin> set w \<Longrightarrow> readlines (concat (replicate n (w @ [LF]))) = replicate n (w @ [LF])"
  by (induction n) (simp_all add: readlines_line)

lemma matching_lines_all:
  assumes "\<forall>line \<in> set ls. py_in (py_lower t) (py_lower line)"
  shows "matching_lines t ls = zip [1 ..< Suc (length ls)] ls"
  unfolding matching_lines_def
  by (rule filter_True) (use assms in \<open>auto dest: set_zip_rightD\<close>)

section \<open>Facts about paths and the policy\<close>

text \<open>
  A path that \<open>resolve\<close> gives has segments without a separator, so splitting its text
  at the separator gives the segments back.
\<close>

lemma split_sep_nonempty: "split_sep sep s \<noteq> []"
  by (induction s) (auto split: list.splits)

lemma split_sep_no_sep: "w \<in> set (split_sep sep s) \<Longrightarrow> sep \<notin> set w"
  by (induction s arbitrary: w) (auto split: if_splits list.splits)

lemma split_sep_append:
  "sep \<notin> set x \<Longrightarrow> split_sep sep (x @ sep # rest) = x # split_sep sep rest"
  by (induction x) (auto split: list.splits simp: split_sep_nonempty)

lemma split_sep_single: "sep \<notin> set x \<Longrightarrow> split_sep sep x = [x]"
  by (induction x) auto

lemma split_join:
  "\<forall>w \<in> set ws. sep \<notin> set w \<Longrightarrow> ws \<noteq> [] \<Longrightarrow> split_sep sep (join [sep] ws) = ws"
proof (induction ws rule: induct_list012)
  case 1
  then show ?case by simp
next
  case (2 x)
  then show ?case by (simp add: split_sep_single)
next
  case (3 x y ys)
  then show ?case by (simp add: split_sep_append)
qed

lemma anchor_pure_path: "anchor (pure_path r) \<in> {[], ''/'', ''//''}"
  by (simp add: pure_path_def)

lemma parts_pure_path_no_sep: "w \<in> set (parts (pure_path r)) \<Longrightarrow> SEP \<notin> set w"
  by (auto simp: pure_path_def dest: split_sep_no_sep)

lemma parts_in_split:
  assumes "resolve h p = Inr a" and "w \<in> set (parts a)"
  shows "w \<in> set (split_sep SEP (str_path a))"
proof -
  from assms(1) obtain r where a: "a = pure_path r"
    by (auto simp: resolve_def split: sum.splits)
  have ne: "parts a \<noteq> []" using assms(2) by auto
  have ns: "\<forall>w \<in> set (parts a). SEP \<notin> set w"
    using a parts_pure_path_no_sep by blast
  have sj: "split_sep SEP (join ''/'' (parts a)) = parts a"
    using split_join [OF ns ne] by simp
  have "anchor a \<in> {[], ''/'', ''//''}" using a anchor_pure_path by simp
  then consider "anchor a = []" | "anchor a = ''/''" | "anchor a = ''//''" by auto
  then show ?thesis
  proof cases
    case 1
    then show ?thesis using ne sj assms(2) by (simp add: str_path_def)
  next
    case 2
    then show ?thesis using ne sj assms(2) by (simp add: str_path_def)
  next
    case 3
    then show ?thesis using ne sj assms(2) by (simp add: str_path_def)
  qed
qed

lemma scan_blocked_Cons:
  "scan_blocked (q # rest) s =
     (if pattern_matches q s
      then Some ((if startswith q ''*.'' then ''Blocked file extension: ''
                  else ''Blocked pattern: '') @ q)
      else scan_blocked rest s)"
  by (simp add: pattern_matches_def)

lemma scan_blocked_first:
  assumes "\<forall>q \<in> set pre. \<not> pattern_matches q s" and "pattern_matches pat s"
  shows "scan_blocked (pre @ pat # post) s =
          Some ((if startswith pat ''*.'' then ''Blocked file extension: ''
                 else ''Blocked pattern: '') @ pat)"
  using assms by (induction pre) (simp_all add: scan_blocked_Cons del: scan_blocked.simps(2))

lemma scan_blocked_hit:
  "pat \<in> set pats \<Longrightarrow> pattern_matches pat s \<Longrightarrow> scan_blocked pats s \<noteq> None"
  by (induction pats) (auto simp add: scan_blocked_Cons simp del: scan_blocked.simps(2))

lemma scan_blocked_None:
  "scan_blocked pats s = None \<longleftrightarrow> (\<forall>q \<in> set pats. \<not> pattern_matches q s)"
  by (induction pats) (auto simp add: scan_blocked_Cons simp del: scan_blocked.simps(2))

lemma lower_char_idem: "lower_char (lower_char c) = lower_char c"
proof -
  have "of_char c < (256::nat)" by simp
  then show ?thesis
    by (auto simp: lower_char_def Let_def)
qed


lemma py_lower_idem: "py_lower (py_lower s) = py_lower s"
  by (simp add: py_lower_def lower_char_idem)

lemma py_lower_Nil: "py_lower s = [] \<longleftrightarrow> s = []"
  by (simp add: py_lower_def)

section \<open>The sample host, evaluated\<close>

lemmas demo_defs = demo_host_def demo_cfg_def demo_fs_def tmp_cfg_def at_def sample_realpath_def
  default_blocked_patterns_def default_allowed_extensions_def

lemmas path_defs = resolve_def pure_path_def str_path_def relative_to_def parent_def
  path_name_def path_suffix_def startswith_def endswith_def suffix_to_prefix

lemmas fs_defs = exists_def is_file_def is_dir_def getsize_def read_text_def write_text_def
  os_mkdir_def file_or_missing_def mkdir_exist_ok_def

lemma demo_a_size: "3 \<le> max_file_size demo_cfg"
  by (simp add: demo_cfg_def default_max_file_size_def)

lemma demo_a_resolve: "resolve demo_host ''ws/a.txt'' = Inr (at [''srv'', ''ws'', ''a.txt''])"
  by (simp add: demo_defs path_defs)

lemma demo_a_allowed: "fst (is_path_allowed demo_host demo_cfg demo_fs ''ws/a.txt'')"
  by (simp add: is_path_allowed_def demo_defs path_defs fs_defs py_lower_def lower_char_def)

lemma demo_a_node: "demo_fs (at [''srv'', ''ws'', ''a.txt'']) = Some (File 3 (Some ''aaa''))"
  by (simp add: demo_defs)

lemma demo_root: "resolve demo_host (allowed_root demo_cfg) = Inr (at [''srv'', ''ws''])"
  by (simp add: demo_defs path_defs)





lemma demo_log_lines:
  "readlines (universal_newlines log_text) = replicate 51 (''hit'' @ [LF])"
proof -
  have "CR \<notin> set log_text" by (auto simp: log_text_def)
  then have "universal_newlines log_text = log_text" by (rule universal_newlines_id)
  moreover have "readlines log_text = replicate 51 (''hit'' @ [LF])"
    unfolding log_text_def by (rule readlines_replicate) simp
  ultimately show ?thesis by simp
qed

lemma demo_log_matches:
  "matching_lines ''HIT'' (replicate 51 (''hit'' @ [LF]))
     = zip [1 ..< Suc 51] (replicate 51 (''hit'' @ [LF]))"
proof -
  have "py_lower ''HIT'' = ''hit''" by code_simp
  moreover have "py_lower (''hit'' @ [LF]) = ''hit'' @ [LF]"
    by (simp add: py_lower_def lower_char_def)
  ultimately have "\<forall>line \<in> set (replicate 51 (''hit'' @ [LF])).
      py_in (py_lower ''HIT'') (py_lower line)"
    by simp
  from matching_lines_all [OF this] show ?thesis by simp
qed

lemma demo_ws_allowed: "fst (is_path_allowed demo_host demo_cfg demo_fs ''ws'')"
  by (simp add: is_path_allowed_def demo_defs path_defs fs_defs py_lower_def lower_char_def)

lemma demo_ws_resolve: "resolve demo_host ''ws'' = Inr (at [''srv'', ''ws''])"
  by (simp add: demo_defs path_defs)

lemma demo_log_results:
  "search_results demo_host demo_cfg demo_fs ''HIT'' (at [''srv'', ''ws''])
     [at [''srv'', ''ws'', ''log.txt'']]
   = Inr (map (\<lambda>k. ''log.txt:'' @ str_nat (Suc k) @ '': hit'') [0 ..< 51])"
proof -
  let ?f = "at [''srv'', ''ws'', ''log.txt'']"
  have al: "fst (is_path_allowed demo_host demo_cfg demo_fs (str_path ?f))"
    by (simp add: is_path_allowed_def demo_defs path_defs fs_defs py_lower_def lower_char_def)
  have r: "resolve demo_host (str_path ?f) = Inr ?f"
    by (simp add: demo_defs path_defs)
  have isf: "is_file demo_host demo_fs ?f = Inr True" by (simp add: demo_defs fs_defs)
  have rd: "read_text demo_fs ?f = Inr (universal_newlines log_text)"
    by (simp add: demo_defs fs_defs)
  have rel: "relative_to ?f (at [''srv'', ''ws''])
      = Inr \<lparr>anchor = [], parts = [''log.txt'']\<rparr>"
    by (simp add: relative_to_def at_def)
  have ml: "matching_lines ''HIT'' (readlines (universal_newlines log_text))
      = zip [1 ..< Suc 51] (replicate 51 (''hit'' @ [LF]))"
    by (simp only: demo_log_lines demo_log_matches)
  have z: "zip [1 ..< Suc 51] (replicate 51 (''hit'' @ [LF]))
      = map (\<lambda>k. (Suc k, ''hit'' @ [LF])) [0 ..< 51]"
    by (rule nth_equalityI) (simp_all del: upt_Suc)
  have ne: "matching_lines ''HIT'' (readlines (universal_newlines log_text)) \<noteq> []"
    unfolding ml z by (simp del: upt_Suc)
  have st: "py_strip (''hit'' @ [LF]) = ''hit''"
    by code_simp
  have sp: "str_path \<lparr>anchor = [], parts = [''log.txt'']\<rparr> = ''log.txt''"
    by (simp add: str_path_def)
  have fe: "format_entry \<lparr>anchor = [], parts = [''log.txt'']\<rparr> (Suc k, ''hit'' @ [LF])
      = ''log.txt:'' @ str_nat (Suc k) @ '': hit''" for k
    unfolding format_entry_def fst_conv snd_conv st sp by simp
  have "read_entries demo_fs ''HIT'' (at [''srv'', ''ws'']) ?f ?f
      = map (format_entry \<lparr>anchor = [], parts = [''log.txt'']\<rparr>)
          (matching_lines ''HIT'' (readlines (universal_newlines log_text)))"
    using rd rel ne by (simp add: read_entries_def Let_def)
  also have "\<dots> = map (\<lambda>k. ''log.txt:'' @ str_nat (Suc k) @ '': hit'') [0 ..< 51]"
    unfolding ml z map_map comp_def fe ..
  finally have "file_entries demo_host demo_cfg demo_fs ''HIT'' (at [''srv'', ''ws'']) ?f
      = Inr (map (\<lambda>k. ''log.txt:'' @ str_nat (Suc k) @ '': hit'') [0 ..< 51])"
    using al r isf by (simp add: file_entries_def)
  then show ?thesis
    by (simp only: search_results.simps sum.case append_Nil2)
qed

lemma demo_notes_lines:
  "readlines (universal_newlines notes_text)
     = [''Alpha'' @ [LF], ''  beta ALPHA '' @ [LF], ''gamma'' @ [LF]]"
proof -
  have "CR \<notin> set notes_text" by (auto simp: notes_text_def)
  then have "universal_newlines notes_text = notes_text" by (rule universal_newlines_id)
  moreover have "readlines notes_text
      = [''Alpha'' @ [LF], ''  beta ALPHA '' @ [LF], ''gamma'' @ [LF]]"
    unfolding notes_text_def by simp
  ultimately show ?thesis by simp
qed

lemma demo_notes_results:
  "search_results demo_host demo_cfg demo_fs ''alpha'' (at [''srv'', ''ws''])
     [at [''srv'', ''ws'', ''notes.md'']]
   = Inr [''notes.md:1: Alpha'', ''notes.md:2: beta ALPHA'']"
proof -
  let ?f = "at [''srv'', ''ws'', ''notes.md'']"
  have al: "fst (is_path_allowed demo_host demo_cfg demo_fs (str_path ?f))"
    by (simp add: is_path_allowed_def demo_defs path_defs fs_defs py_lower_def lower_char_def)
  have r: "resolve demo_host (str_path ?f) = Inr ?f"
    by (simp add: demo_defs path_defs)
  have isf: "is_file demo_host demo_fs ?f = Inr True" by (simp add: demo_defs fs_defs)
  have rd: "read_text demo_fs ?f = Inr (universal_newlines notes_text)"
    by (simp add: demo_defs fs_defs)
  have rel: "relative_to ?f (at [''srv'', ''ws''])
      = Inr \<lparr>anchor = [], parts = [''notes.md'']\<rparr>"
    by (simp add: relative_to_def at_def)
  have m0: "py_in (py_lower ''alpha'') (py_lower (''Alpha'' @ [LF]))"
    by code_simp
  have m1: "py_in (py_lower ''alpha'') (py_lower (''  beta ALPHA '' @ [LF]))"
    by code_simp
  have m2: "\<not> py_in (py_lower ''alpha'') (py_lower (''gamma'' @ [LF]))"
    by code_simp
  have ml: "matching_lines ''alpha'' (readlines (universal_newlines notes_text))
      = [(1, ''Alpha'' @ [LF]), (2, ''  beta ALPHA '' @ [LF])]"
    unfolding demo_notes_lines matching_lines_def
    using m0 m1 m2 by (simp add: upt_rec del: upt_Suc)
  have e0: "format_entry \<lparr>anchor = [], parts = [''notes.md'']\<rparr> (1, ''Alpha'' @ [LF])
      = ''notes.md:1: Alpha''"
    by code_simp
  have e1: "format_entry \<lparr>anchor = [], parts = [''notes.md'']\<rparr> (2, ''  beta ALPHA '' @ [LF])
      = ''notes.md:2: beta ALPHA''"
    by code_simp
  have "read_entries demo_fs ''alpha'' (at [''srv'', ''ws'']) ?f ?f
      = map (format_entry \<lparr>anchor = [], parts = [''notes.md'']\<rparr>)
          (matching_lines ''alpha'' (readlines (universal_newlines notes_text)))"
    using rd rel ml by (simp add: read_entries_def Let_def)
  also have "\<dots> = [''notes.md:1: Alpha'', ''notes.md:2: beta ALPHA'']"
    unfolding ml list.map e0 e1 ..
  finally have "file_entries demo_host demo_cfg demo_fs ''alpha'' (at [''srv'', ''ws'']) ?f
      = Inr [''notes.md:1: Alpha'', ''notes.md:2: beta ALPHA'']"
    using al r isf by (simp add: file_entries_def)
  then show ?thesis
    by (simp only: search_results.simps sum.case append_Nil2)
qed

section \<open>The claims\<close>

text \<open>
  C1. When the canonical form of the path is neither the canonical form of the allowed
  root nor below it, \<open>is_path_allowed\<close> denies with the reason
  \<open>Path outside allowed directory\<close> followed by the canonical root. This covers a path
  that leaves the root through \<open>..\<close> or through a symbolic link, since the test is
  made on what \<open>resolve\<close> gives: two path strings with the same canonical form get the
  same decision.
\<close>

theorem C1_outside_root_denied:
  assumes "resolve h p = Inr a"
    and "resolve h (allowed_root cfg) = Inr root"
    and "\<not> (anchor a = anchor root \<and> prefix (parts root) (parts a))"
  shows "is_path_allowed h cfg fs p
           = (False, ''Path outside allowed directory: '' @ str_path root)
         \<and> (\<forall>p'. realpath h p' = realpath h p \<longrightarrow>
               is_path_allowed h cfg fs p' = is_path_allowed h cfg fs p)"
proof -
  have "is_path_allowed h cfg fs p
          = (False, ''Path outside allowed directory: '' @ str_path root)"
    using assms by (auto simp: is_path_allowed_def relative_to_def)
  moreover have "is_path_allowed h cfg fs p' = is_path_allowed h cfg fs p"
    if "realpath h p' = realpath h p" for p'
    using that by (simp add: is_path_allowed_def resolve_def)
  ultimately show ?thesis by blast
qed

theorem C1_outside_root_denied_witness:
  "is_path_allowed demo_host demo_cfg demo_fs ''/srv/ws/../../etc/passwd''
     = (False, ''Path outside allowed directory: /srv/ws'')
   \<and> is_path_allowed demo_host demo_cfg demo_fs ''/srv/ws/out/passwd''
     = (False, ''Path outside allowed directory: /srv/ws'')"
proof -
  have r1: "resolve demo_host ''/srv/ws/../../etc/passwd'' = Inr (at [''etc'', ''passwd''])"
    by (simp add: demo_defs path_defs)
  have r2: "resolve demo_host ''/srv/ws/out/passwd'' = Inr (at [''etc'', ''passwd''])"
    by (simp add: demo_defs path_defs)
  have out: "\<not> (anchor (at [''etc'', ''passwd'']) = anchor (at [''srv'', ''ws''])
               \<and> prefix (parts (at [''srv'', ''ws''])) (parts (at [''etc'', ''passwd''])))"
    by (simp add: at_def)
  from C1_outside_root_denied [OF r1 demo_root out, of demo_fs]
       C1_outside_root_denied [OF r2 demo_root out, of demo_fs]
  show ?thesis by (simp add: at_def str_path_def)
qed

text \<open>
  C2, evaluated where the configured root is written through a symbolic link
  (\<open>/tmp/ws\<close> with \<open>/tmp\<close> a link to \<open>/private/tmp\<close>). The file holds \<open>a a\<close>,
  so \<open>a\<close> is counted twice and the policy allows the path. \<open>edit_file\<close> with
  \<open>replace_all=True\<close> writes \<open>b b\<close>, but then forms the path of the answer relative to
  the root as it is configured, not as it is resolved, and answers
  \<open>Error editing file\<close> without any count.
\<close>

theorem C2_report_lost_under_linked_root:
  "py_count ''a a'' ''a'' = 2
   \<and> is_path_allowed demo_host tmp_cfg demo_fs ''/tmp/ws/a.txt'' = (True, ''OK'')
   \<and> edit_file demo_host tmp_cfg demo_fs ''/tmp/ws/a.txt'' ''a'' ''b'' True
       = (''Error editing file: '' @ exn_str demo_host ValueError,
          demo_fs(at [''private'', ''tmp'', ''ws'', ''a.txt''] \<mapsto> File 3 (Some ''b b'')))"
proof -
  have c: "py_count ''a a'' ''a'' = 2"
    by (simp add: py_count_def count_from.simps)
  have r: "py_replace ''a a'' ''a'' ''b'' = ''b b''"
    by (simp add: py_replace_def replace_from.simps)
  have u: "utf8_len ''b b'' = 3"
    by (simp add: utf8_len_def)
  have al: "is_path_allowed demo_host tmp_cfg demo_fs ''/tmp/ws/a.txt'' = (True, ''OK'')"
    by (simp add: is_path_allowed_def demo_defs path_defs fs_defs py_lower_def lower_char_def)
  have ra: "resolve demo_host ''/tmp/ws/a.txt'' = Inr (at [''private'', ''tmp'', ''ws'', ''a.txt''])"
    by (simp add: demo_defs path_defs)
  have nd: "demo_fs (at [''private'', ''tmp'', ''ws'', ''a.txt'']) = Some (File 3 (Some ''a a''))"
    by (simp add: demo_defs)
  have sz: "3 \<le> max_file_size tmp_cfg"
    by (simp add: demo_defs default_max_file_size_def)
  have un: "universal_newlines ''a a'' = ''a a''" by simp
  have mem: "py_in ''a'' ''a a''" by simp
  have rel: "relative_to (at [''private'', ''tmp'', ''ws'', ''a.txt''])
               (pure_path (allowed_root tmp_cfg)) = Inl ValueError"
    by (simp add: demo_defs path_defs)
  have "edit_file demo_host tmp_cfg demo_fs ''/tmp/ws/a.txt'' ''a'' ''b'' True
          = edit_content demo_host tmp_cfg demo_fs ''/tmp/ws/a.txt''
              (at [''private'', ''tmp'', ''ws'', ''a.txt'']) ''a a'' ''a'' ''b'' True"
  proof -
    have "fst (is_path_allowed demo_host tmp_cfg demo_fs ''/tmp/ws/a.txt'')"
      using al by simp
    from edit_file_loaded [OF this ra nd sz] un show ?thesis by simp
  qed
  also have "\<dots> = (''Error editing file: '' @ exn_str demo_host ValueError,
          demo_fs(at [''private'', ''tmp'', ''ws'', ''a.txt''] \<mapsto> File 3 (Some ''b b'')))"
    using mem c r u rel write_text_file [of demo_fs "at [''private'', ''tmp'', ''ws'', ''a.txt'']" 3 "Some ''a a''" "''b b''", OF nd]
    by (simp add: edit_content_def Let_def)
  finally show ?thesis using c al by simp
qed

text \<open>
  C3. When a segment of the canonical path, at any depth, is a pattern of
  \<open>blocked_patterns\<close> that does not start with \<open>*.\<close>, \<open>is_path_allowed\<close> denies.
  When the canonical path is within the allowed root, the patterns are tried in the
  order of the list, and the reason names the first pattern that matches: for a pattern
  that starts with \<open>*.\<close> the reason is \<open>Blocked file extension\<close>, for any other
  \<open>Blocked pattern\<close>.
\<close>

theorem C3_blocked_segment_denied:
  assumes "resolve h p = Inr a"
    and "pat \<in> set (blocked_patterns cfg)"
    and "\<not> startswith pat ''*.''"
    and "pat \<in> set (parts a)"
  shows "\<not> fst (is_path_allowed h cfg fs p)
    \<and> (\<forall>root pre q post.
          resolve h (allowed_root cfg) = Inr root
          \<and> anchor a = anchor root \<and> prefix (parts root) (parts a)
          \<and> blocked_patterns cfg = pre @ q # post
          \<and> (\<forall>q' \<in> set pre. \<not> pattern_matches q' (str_path a))
          \<and> pattern_matches q (str_path a)
          \<longrightarrow> is_path_allowed h cfg fs p
                = (False, (if startswith q ''*.'' then ''Blocked file extension: ''
                           else ''Blocked pattern: '') @ q))"
proof -
  have m: "pattern_matches pat (str_path a)"
    using assms(3) parts_in_split [OF assms(1,4)] by (simp add: pattern_matches_def)
  have hit: "scan_blocked (blocked_patterns cfg) (str_path a) \<noteq> None"
    using scan_blocked_hit [OF assms(2) m] .
  have deny: "\<not> fst (is_path_allowed h cfg fs p)"
    using assms(1) hit
    by (auto simp: is_path_allowed_def split: sum.splits option.splits)
  have first: "is_path_allowed h cfg fs p
                = (False, (if startswith q ''*.'' then ''Blocked file extension: ''
                           else ''Blocked pattern: '') @ q)"
    if "resolve h (allowed_root cfg) = Inr root"
      and "anchor a = anchor root" and "prefix (parts root) (parts a)"
      and "blocked_patterns cfg = pre @ q # post"
      and "\<forall>q' \<in> set pre. \<not> pattern_matches q' (str_path a)"
      and "pattern_matches q (str_path a)"
    for root pre q post
    using that assms(1) scan_blocked_first [OF that(5,6), of post]
    by (simp add: is_path_allowed_def relative_to_def)
  show ?thesis using deny first by blast
qed

theorem C3_blocked_segment_denied_witness:
  "is_path_allowed demo_host demo_cfg demo_fs ''ws/.git/config''
     = (False, ''Blocked pattern: .git'')"
proof -
  let ?a = "at [''srv'', ''ws'', ''.git'', ''config'']"
  have r: "resolve demo_host ''ws/.git/config'' = Inr ?a"
    by (simp add: demo_defs path_defs)
  have pat: "''.git'' \<in> set (blocked_patterns demo_cfg)"
    by (simp add: demo_defs)
  have lit: "\<not> startswith ''.git'' ''*.''"
    by (simp add: startswith_def)
  have seg: "''.git'' \<in> set (parts ?a)"
    by (simp add: at_def)
  have bp: "blocked_patterns demo_cfg = [] @ ''.git'' # tl default_blocked_patterns"
    by (simp add: demo_defs)
  have m: "pattern_matches ''.git'' (str_path ?a)"
    by (simp add: pattern_matches_def startswith_def str_path_def at_def)
  have inside: "anchor ?a = anchor (at [''srv'', ''ws''])
      \<and> prefix (parts (at [''srv'', ''ws''])) (parts ?a)"
    by (simp add: at_def)
  from C3_blocked_segment_denied [OF r pat lit seg, of demo_fs, THEN conjunct2, rule_format,
      of "at [''srv'', ''ws'']" "[]" "''.git''" "tl default_blocked_patterns"]
    demo_root inside bp m lit
  show ?thesis by simp
qed

text \<open>
  C4, as the code has it. For a canonical path within the allowed root that no blocked
  pattern matches: when the target is a regular file or does not exist, and the suffix of
  the path is not empty and differs from every allowed extension when both are lowered,
  the path is denied with the reason \<open>File extension not allowed\<close>; when the status of
  the target can be read, a path without a suffix is allowed, and the path is denied
  exactly when the target is a regular file or does not exist and the lowered suffix is
  not empty and not in \<open>allowed_extensions\<close>; an existing target that is not a regular
  file is allowed whatever its suffix; and when reading the status of the target raises
  an error, the path is denied with the reason \<open>Path validation error\<close>.
\<close>

theorem C4_extension_allow_list:
  assumes "resolve h p = Inr a"
    and "resolve h (allowed_root cfg) = Inr root"
    and "relative_to a root = Inr rel"
    and "scan_blocked (blocked_patterns cfg) (str_path a) = None"
  shows "((is_file h fs a = Inr True \<or> exists h fs a = Inr False) \<and> path_suffix a \<noteq> []
          \<and> (\<forall>e \<in> set (allowed_extensions cfg). py_lower e \<noteq> py_lower (path_suffix a))
          \<longrightarrow> is_path_allowed h cfg fs p
                = (False, ''File extension not allowed: '' @ py_lower (path_suffix a)))
    \<and> (stat_error h a = None \<and> path_suffix a = []
          \<longrightarrow> is_path_allowed h cfg fs p = (True, ''OK''))
    \<and> (exists h fs a = Inr True \<and> is_file h fs a = Inr False
          \<longrightarrow> is_path_allowed h cfg fs p = (True, ''OK''))
    \<and> (stat_error h a = None \<longrightarrow>
         (fst (is_path_allowed h cfg fs p) \<longleftrightarrow>
            \<not> ((is_file h fs a = Inr True \<or> exists h fs a = Inr False) \<and> path_suffix a \<noteq> []
               \<and> py_lower (path_suffix a) \<notin> set (allowed_extensions cfg))))
    \<and> (\<forall>e. stat_error h a = Some e
          \<longrightarrow> is_path_allowed h cfg fs p = (False, ''Path validation error: '' @ exn_str h e))"
proof (cases "stat_error h a")
  case None
  have ci: "py_lower (path_suffix a) \<notin> set (allowed_extensions cfg)"
    if "\<forall>e \<in> set (allowed_extensions cfg). py_lower e \<noteq> py_lower (path_suffix a)"
    using that py_lower_idem by blast
  have fm: "file_or_missing h fs a
      = Inr (case fs a of None \<Rightarrow> True | Some Dir \<Rightarrow> False | Some (File n body) \<Rightarrow> True)"
    using None
    by (simp add: file_or_missing_def is_file_def exists_def split: option.splits node.splits)
  have f: "is_file h fs a = Inr (case fs a of Some (File n body) \<Rightarrow> True | _ \<Rightarrow> False)"
    using None by (simp add: is_file_def)
  have x: "exists h fs a = Inr (fs a \<noteq> None)"
    using None by (simp add: exists_def)
  show ?thesis
    using assms ci None
    by (auto simp: is_path_allowed_def fm f x Let_def py_lower_Nil
        split: option.splits node.splits)
next
  case (Some e)
  then have fm: "file_or_missing h fs a = Inl e"
    by (simp add: file_or_missing_def is_file_def)
  from Some have f: "is_file h fs a = Inl e" and x: "exists h fs a = Inl e"
    by (simp_all add: is_file_def exists_def)
  show ?thesis
    using assms Some by (simp add: is_path_allowed_def fm f x)
qed

theorem C4_extension_allow_list_witness:
  "is_path_allowed demo_host demo_cfg demo_fs ''ws/new.EXE''
     = (False, ''File extension not allowed: .exe'')
   \<and> is_path_allowed demo_host demo_cfg demo_fs ''ws/rel.d'' = (True, ''OK'')
   \<and> is_path_allowed demo_host demo_cfg demo_fs ''ws/Makefile'' = (True, ''OK'')
   \<and> is_path_allowed demo_host demo_cfg demo_fs ''ws/locked/new.txt''
     = (False, ''Path validation error: error'')"
proof -
  let ?root = "at [''srv'', ''ws'']"
  let ?a1 = "at [''srv'', ''ws'', ''new.EXE'']"
  let ?a2 = "at [''srv'', ''ws'', ''rel.d'']"
  let ?a3 = "at [''srv'', ''ws'', ''Makefile'']"
  let ?a4 = "at [''srv'', ''ws'', ''locked'', ''new.txt'']"
  have r1: "resolve demo_host ''ws/new.EXE'' = Inr ?a1" by (simp add: demo_defs path_defs)
  have r2: "resolve demo_host ''ws/rel.d'' = Inr ?a2" by (simp add: demo_defs path_defs)
  have r3: "resolve demo_host ''ws/Makefile'' = Inr ?a3" by (simp add: demo_defs path_defs)
  have r4: "resolve demo_host ''ws/locked/new.txt'' = Inr ?a4"
    by (simp add: demo_defs path_defs)
  have i1: "relative_to ?a1 ?root = Inr \<lparr>anchor = [], parts = [''new.EXE'']\<rparr>"
    by (simp add: relative_to_def at_def)
  have i2: "relative_to ?a2 ?root = Inr \<lparr>anchor = [], parts = [''rel.d'']\<rparr>"
    by (simp add: relative_to_def at_def)
  have i3: "relative_to ?a3 ?root = Inr \<lparr>anchor = [], parts = [''Makefile'']\<rparr>"
    by (simp add: relative_to_def at_def)
  have i4: "relative_to ?a4 ?root = Inr \<lparr>anchor = [], parts = [''locked'', ''new.txt'']\<rparr>"
    by (simp add: relative_to_def at_def)
  have s1: "scan_blocked (blocked_patterns demo_cfg) (str_path ?a1) = None"
    by (simp add: demo_defs path_defs)
  have s2: "scan_blocked (blocked_patterns demo_cfg) (str_path ?a2) = None"
    by (simp add: demo_defs path_defs)
  have s3: "scan_blocked (blocked_patterns demo_cfg) (str_path ?a3) = None"
    by (simp add: demo_defs path_defs)
  have s4: "scan_blocked (blocked_patterns demo_cfg) (str_path ?a4) = None"
    by (simp add: demo_defs path_defs)
  have x1: "path_suffix ?a1 = ''.EXE''"
    by (simp add: demo_defs path_defs)
  have "py_lower ''.EXE'' = ''.exe''"
    by code_simp
  with x1 have l1: "py_lower (path_suffix ?a1) = ''.exe''"
    by simp
  have f1: "(is_file demo_host demo_fs ?a1 = Inr True \<or> exists demo_host demo_fs ?a1 = Inr False)
      \<and> path_suffix ?a1 \<noteq> []
      \<and> (\<forall>e \<in> set (allowed_extensions demo_cfg). py_lower e \<noteq> py_lower (path_suffix ?a1))"
  proof -
    have "\<forall>e \<in> set (allowed_extensions demo_cfg). py_lower e \<noteq> ''.exe''"
      by (simp add: demo_defs py_lower_def lower_char_def)
    moreover have "exists demo_host demo_fs ?a1 = Inr False"
      by (simp add: demo_defs fs_defs)
    ultimately show ?thesis using x1 l1 by simp
  qed
  have f2: "exists demo_host demo_fs ?a2 = Inr True \<and> is_file demo_host demo_fs ?a2 = Inr False"
    by (simp add: demo_defs fs_defs)
  have f3: "stat_error demo_host ?a3 = None \<and> path_suffix ?a3 = []"
    by (simp add: demo_defs path_defs)
  have f4: "stat_error demo_host ?a4 = Some PermissionError"
    by (simp add: demo_defs)
  have e4: "exn_str demo_host PermissionError = ''error''"
    by (simp add: demo_defs)
  from C4_extension_allow_list [OF r1 demo_root i1 s1, of demo_fs]
       C4_extension_allow_list [OF r2 demo_root i2 s2, of demo_fs]
       C4_extension_allow_list [OF r3 demo_root i3 s3, of demo_fs]
       C4_extension_allow_list [OF r4 demo_root i4 s4, of demo_fs]
       f1 l1 f2 f3 f4 e4
  show ?thesis by simp
qed

text \<open>
  C4 as stated fails on the sample host: \<open>ws/locked/notes\<close> lies within the allowed
  root, no blocked pattern matches it, it has no extension and there is no such file, but
  the status of a path below \<open>locked\<close> cannot be read, and the path is denied.
\<close>

theorem C4_unreadable_status_counterexample:
  "resolve demo_host ''ws/locked/notes'' = Inr (at [''srv'', ''ws'', ''locked'', ''notes''])
   \<and> resolve demo_host (allowed_root demo_cfg) = Inr (at [''srv'', ''ws''])
   \<and> relative_to (at [''srv'', ''ws'', ''locked'', ''notes'']) (at [''srv'', ''ws''])
       = Inr \<lparr>anchor = [], parts = [''locked'', ''notes'']\<rparr>
   \<and> scan_blocked (blocked_patterns demo_cfg)
        (str_path (at [''srv'', ''ws'', ''locked'', ''notes''])) = None
   \<and> path_suffix (at [''srv'', ''ws'', ''locked'', ''notes'']) = []
   \<and> demo_fs (at [''srv'', ''ws'', ''locked'', ''notes'']) = None
   \<and> is_path_allowed demo_host demo_cfg demo_fs ''ws/locked/notes''
       = (False, ''Path validation error: error'')"
proof -
  let ?a = "at [''srv'', ''ws'', ''locked'', ''notes'']"
  have r: "resolve demo_host ''ws/locked/notes'' = Inr ?a"
    by (simp add: demo_defs path_defs)
  have i: "relative_to ?a (at [''srv'', ''ws''])
      = Inr \<lparr>anchor = [], parts = [''locked'', ''notes'']\<rparr>"
    by (simp add: relative_to_def at_def)
  have s: "scan_blocked (blocked_patterns demo_cfg) (str_path ?a) = None"
    by (simp add: demo_defs path_defs)
  have x: "path_suffix ?a = []"
    by (simp add: demo_defs path_defs)
  have n: "demo_fs ?a = None"
    by (simp add: demo_defs)
  have fm: "file_or_missing demo_host demo_fs ?a = Inl PermissionError"
    by (simp add: demo_defs fs_defs)
  have d: "is_path_allowed demo_host demo_cfg demo_fs ''ws/locked/notes''
      = (False, ''Path validation error: error'')"
    using r demo_root i s fm by (simp add: is_path_allowed_def demo_host_def)
  from r demo_root i s x n d show ?thesis by simp
qed

text \<open>
  C5. When the policy allows the path, the file exists, is within the size limit and
  decodes, and the text read from it does not contain \<open>old_string\<close> as a substring,
  \<open>edit_file\<close> answers that \<open>old_string\<close> was not found in the file and leaves the
  file system as it was. The answer differs from the answer for a path that does not
  exist.
\<close>

theorem C5_edit_not_found_in_file:
  assumes "fst (is_path_allowed h cfg fs p)"
    and "resolve h p = Inr a"
    and "fs a = Some (File n (Some raw))"
    and "n \<le> max_file_size cfg"
    and "\<not> sublist old (universal_newlines raw)"
  shows "edit_file h cfg fs p old new ra = (''Error: old_string not found in '' @ p, fs)
         \<and> fst (edit_file h cfg fs p old new ra) \<noteq> ''File not found: '' @ p"
  using assms
  by (simp add: edit_file_loaded edit_content_def py_in_sublist)

theorem C5_edit_not_found_in_file_witness:
  "edit_file demo_host demo_cfg demo_fs ''ws/a.txt'' ''zz'' ''y'' False
     = (''Error: old_string not found in ws/a.txt'', demo_fs)"
proof -
  have "\<not> sublist ''zz'' (universal_newlines ''aaa'')"
    by (simp add: sublist_Cons_right)
  from C5_edit_not_found_in_file [OF demo_a_allowed demo_a_resolve demo_a_node demo_a_size this]
  show ?thesis by simp
qed




text \<open>
  C7. When the policy allows the path and the canonical path exists, \<open>create_file\<close>
  answers that the file already exists and leaves the file system as it was, whatever
  the content.
\<close>

theorem C7_create_existing:
  assumes "fst (is_path_allowed h cfg fs p)"
    and "resolve h p = Inr a"
    and "exists h fs a = Inr True"
  shows "create_file h cfg fs p content =
           (''File already exists: '' @ p @ ''. Use write_file to update it.'', fs)"
  using assms
  by (cases "is_path_allowed h cfg fs p") (simp add: create_file_def)

theorem C7_create_existing_witness:
  "create_file demo_host demo_cfg demo_fs ''ws/a.txt'' ''zz''
     = (''File already exists: ws/a.txt. Use write_file to update it.'', demo_fs)"
proof -
  have "exists demo_host demo_fs (at [''srv'', ''ws'', ''a.txt'']) = Inr True"
    by (simp add: exists_def demo_a_node) (simp add: demo_defs)
  from C7_create_existing [OF demo_a_allowed demo_a_resolve this]
  show ?thesis by simp
qed

text \<open>
  C8. \<open>search_in_files\<close> answers \<open>Access denied\<close> or \<open>Error searching files\<close>
  without any entry, or it answers from the list of the entries found: for each path that
  \<open>rglob\<close> gives, in that order, when the policy allows the path and the path is a
  regular file that decodes, one entry \<open>path:number: text\<close> for each line that holds the
  search term, both in lower case, where the path is taken relative to the directory
  searched, the number is the number of the line counted from 1, and the text is the line
  stripped. With \<open>M\<close> the length of that list, the answer is the first 50 entries, each
  on a line, and when \<open>M\<close> is more than 50 it ends with the decimal numeral of
  \<open>M - 50\<close>.
\<close>

theorem C8_search_limit:
  "(\<not> fst (is_path_allowed h cfg fs d) \<longrightarrow>
      search_in_files h cfg fs t d pat = ''Access denied: '' @ snd (is_path_allowed h cfg fs d))
   \<and> (\<forall>e. fst (is_path_allowed h cfg fs d)
          \<and> (resolve h d = Inl e \<or> (\<exists>sp. resolve h d = Inr sp \<and> rglob h fs sp pat = Inl e))
        \<longrightarrow> search_in_files h cfg fs t d pat = ''Error searching files: '' @ exn_str h e)
   \<and> (\<forall>sp files. fst (is_path_allowed h cfg fs d) \<and> resolve h d = Inr sp
          \<and> rglob h fs sp pat = Inr files
        \<longrightarrow> (let results = concat (map (\<lambda>fp.
                   if fst (is_path_allowed h cfg fs (str_path fp))
                   then (case resolve h (str_path fp) of
                           Inl e \<Rightarrow> []
                         | Inr target \<Rightarrow>
                            (case fs target of
                               Some (File n (Some raw)) \<Rightarrow>
                                 (case relative_to fp sp of
                                    Inl e \<Rightarrow> []
                                  | Inr rel \<Rightarrow>
                                      map (\<lambda>k. str_path rel @ '':'' @ str_nat (Suc k) @ '': ''
                                                 @ py_strip (readlines (universal_newlines raw) ! k))
                                        (filter (\<lambda>k. sublist (py_lower t)
                                                        (py_lower (readlines (universal_newlines raw) ! k)))
                                           [0 ..< length (readlines (universal_newlines raw))]))
                             | _ \<Rightarrow> []))
                   else []) files);
                 m = length results
             in search_in_files h cfg fs t d pat
                  = (if m = 0 then ''No matches found for '' @ [CHR 0x27] @ t @ [CHR 0x27]
                     else join [LF] (take 50 results)
                          @ (if 50 < m
                             then [LF, LF] @ ''... and '' @ str_nat (m - 50) @ '' more results''
                             else []))
                \<and> length (take 50 results) \<le> 50
                \<and> length (take 50 results) = min m 50
                \<and> digits_value (str_nat (m - 50)) = m - 50))"
proof -
  have a: "search_in_files h cfg fs t d pat = ''Access denied: '' @ snd (is_path_allowed h cfg fs d)"
    if "\<not> fst (is_path_allowed h cfg fs d)"
    using that by (cases "is_path_allowed h cfg fs d") (simp add: search_in_files_def)
  have b: "search_in_files h cfg fs t d pat = ''Error searching files: '' @ exn_str h e"
    if "fst (is_path_allowed h cfg fs d)"
      and "resolve h d = Inl e \<or> (\<exists>sp. resolve h d = Inr sp \<and> rglob h fs sp pat = Inl e)" for e
    using that by (cases "is_path_allowed h cfg fs d") (auto simp: search_in_files_def)
  have c: "search_in_files h cfg fs t d pat = search_output t results"
    if "fst (is_path_allowed h cfg fs d)" and "resolve h d = Inr sp"
      and "rglob h fs sp pat = Inr files"
      and "search_results h cfg fs t sp files = Inr results" for sp files results
    using that by (cases "is_path_allowed h cfg fs d") (simp add: search_in_files_def)
  have out: "search_output t rs
      = (if length rs = 0 then ''No matches found for '' @ [CHR 0x27] @ t @ [CHR 0x27]
         else join [LF] (take 50 rs)
              @ (if 50 < length rs
                 then [LF, LF] @ ''... and '' @ str_nat (length rs - 50) @ '' more results''
                 else []))" for rs
    by (simp add: search_output_def Let_def)
  show ?thesis
    using a b c [OF _ _ _ search_results_index] out
    by (simp add: Let_def digits_value_str_nat)
qed

theorem C8_search_limit_witness:
  "search_in_files demo_host demo_cfg demo_fs ''alpha'' ''ws'' ''*.md''
     = ''notes.md:1: Alpha'' @ [LF] @ ''notes.md:2: beta ALPHA''
   \<and> search_in_files demo_host demo_cfg demo_fs ''HIT'' ''ws'' ''*.txt''
     = join [LF] (map (\<lambda>k. ''log.txt:'' @ str_nat (Suc k) @ '': hit'') [0 ..< 50])
       @ [LF, LF] @ ''... and 1 more results''"
proof -
  let ?sp = "at [''srv'', ''ws'']"
  have g1: "rglob demo_host demo_fs ?sp ''*.md'' = Inr [at [''srv'', ''ws'', ''notes.md'']]"
    by (simp add: demo_defs)
  have g2: "rglob demo_host demo_fs ?sp ''*.txt'' = Inr [at [''srv'', ''ws'', ''log.txt'']]"
    by (simp add: demo_defs)
  note res1 = search_results_index [of demo_host demo_cfg demo_fs "''alpha''" ?sp
      "[at [''srv'', ''ws'', ''notes.md'']]", unfolded demo_notes_results sum.inject, symmetric]
  note res2 = search_results_index [of demo_host demo_cfg demo_fs "''HIT''" ?sp
      "[at [''srv'', ''ws'', ''log.txt'']]", unfolded demo_log_results sum.inject, symmetric]
  have one: "str_nat (Suc 0) = ''1''"
    by code_simp
  have tk: "take 50 (map (\<lambda>k. ''log.txt:'' @ str_nat (Suc k) @ '': hit'') [0 ..< 51])
      = map (\<lambda>k. ''log.txt:'' @ str_nat (Suc k) @ '': hit'') [0 ..< 50]"
    by (simp add: take_map del: upt_Suc)
  have ln: "length (map (\<lambda>k. ''log.txt:'' @ str_nat (Suc k) @ '': hit'') [0 ..< 51]) = 51"
    by (simp del: upt_Suc)
  from C8_search_limit [where h = demo_host and cfg = demo_cfg and fs = demo_fs
      and d = "''ws''" and t = "''alpha''" and pat = "''*.md''",
      THEN conjunct2, THEN conjunct2, rule_format, of ?sp "[at [''srv'', ''ws'', ''notes.md'']]",
      unfolded res1 Let_def]
    demo_ws_allowed demo_ws_resolve g1
  have 1: "search_in_files demo_host demo_cfg demo_fs ''alpha'' ''ws'' ''*.md''
     = ''notes.md:1: Alpha'' @ [LF] @ ''notes.md:2: beta ALPHA''"
    by simp
  from C8_search_limit [where h = demo_host and cfg = demo_cfg and fs = demo_fs
      and d = "''ws''" and t = "''HIT''" and pat = "''*.txt''",
      THEN conjunct2, THEN conjunct2, rule_format, of ?sp "[at [''srv'', ''ws'', ''log.txt'']]",
      unfolded res2 Let_def tk ln]
    demo_ws_allowed demo_ws_resolve g2
  have 2: "search_in_files demo_host demo_cfg demo_fs ''HIT'' ''ws'' ''*.txt''
     = join [LF] (map (\<lambda>k. ''log.txt:'' @ str_nat (Suc k) @ '': hit'') [0 ..< 50])
       @ [LF, LF] @ ''... and 1 more results''"
    by (simp add: one)
  from 1 2 show ?thesis by simp
qed





end
